theory Spec2Isabelle
  imports Main "HOL-Library.Word"
begin

section \<open>The range client of \<^verbatim>\<open>client.go\<close>\<close>

text \<open>
  A shallow embedding of \<^verbatim>\<open>NewClient\<close>, \<^verbatim>\<open>query\<close>, \<^verbatim>\<open>getFromRangeServer\<close>,
  \<^verbatim>\<open>getQuery\<close>, \<^verbatim>\<open>putQuery\<close> and \<^verbatim>\<open>readAndClose\<close>.  Go's \<^verbatim>\<open>(value, error)\<close>
  results are pairs whose second component is \<open>None\<close> for a \<^verbatim>\<open>nil\<close> error; a
  \<^verbatim>\<open>panic\<close> is a result of its own.  Everything the code does to the outside (the
  rotation cursor, the HTTP transport, reading and closing a body, sleeping) is threaded
  through an explicit state that also records a trace of these events.
\<close>

subsection \<open>Errors, results, machine integers\<close>

type_synonym go_int = "64 word"
  \<comment> \<open>Go's \<^verbatim>\<open>int\<close> and \<^verbatim>\<open>time.Duration\<close> (an \<^verbatim>\<open>int64\<close>) on a 64-bit platform\<close>

type_synonym bytes = string

datatype error =
    ErrStatusNotOK string int
  | ErrRangeException string
  | Canceled
  | DeadlineExceeded
  | ErrNegativeRetryCount go_int
  | ErrNegativeRetryPause go_int
  | ErrNoServers
  | ErrOther string

datatype 'a outcome = Panics string | Returns 'a

type_synonym reply = "(bytes option \<times> error option) outcome"

subsection \<open>HTTP values\<close>

definition MethodGet :: string where "MethodGet = ''GET''"
definition MethodPut :: string where "MethodPut = ''PUT''"

definition StatusOK :: int where "StatusOK = 200"
definition StatusMethodNotAllowed :: int where "StatusMethodNotAllowed = 405"
definition StatusRequestURITooLong :: int where "StatusRequestURITooLong = 414"

definition defaultQueryLengthThreshold :: nat where
  "defaultQueryLengthThreshold = 4096"

record http_request =
  Method :: string
  URL :: string
  ReqBody :: "string option"
  ReqHeader :: "(string \<times> string) list"

text \<open>
  A response body is an \<^verbatim>\<open>io.ReadCloser\<close>: what \<^verbatim>\<open>ioutil.ReadAll\<close> yields on it and
  what its \<^verbatim>\<open>Close\<close> yields.  \<open>Header\<close> is the response's \<^verbatim>\<open>Header.Get\<close>, the empty
  string for an absent header.
\<close>

record http_body =
  readAll :: "bytes \<times> error option"
  closeErr :: "error option"

record http_response =
  Status :: string
  StatusCode :: int
  Header :: "string \<Rightarrow> string"
  Body :: http_body

subsection \<open>State, context, transport\<close>

datatype event =
    EvNext string
  | EvDo http_request
  | EvReadAll
  | EvClose
  | EvSleep go_int

record 'w state =
  cursor :: nat
  world :: 'w
  trace :: "event list"

text \<open>
  A context is read off the outside world: \<open>None\<close> while it is live (\<^verbatim>\<open>ctx.Done()\<close>
  not yet closed), \<open>Some e\<close> once it is concluded, \<open>e\<close> being \<^verbatim>\<open>ctx.Err()\<close>.
  A \<^verbatim>\<open>Doer\<close> is handed the context and the request (\<^verbatim>\<open>request.WithContext(ctx)\<close>)
  and changes the world.
\<close>

type_synonym 'w Context = "'w \<Rightarrow> error option"

type_synonym 'w Doer = "'w Context \<Rightarrow> http_request \<Rightarrow> 'w \<Rightarrow> (error + http_response) \<times> 'w"

definition Background :: "'w Context" where
  "Background = (\<lambda>w. None)"

text \<open>What the code takes from Go's library and runtime: \<^verbatim>\<open>http.NewRequest\<close>'s error
  for a method and a URL, \<^verbatim>\<open>time.Sleep\<close>, and the choice of the \<^verbatim>\<open>select\<close> in
  \<^verbatim>\<open>query\<close> (see there).\<close>

record 'w runtime =
  newRequestErr :: "string \<Rightarrow> string \<Rightarrow> error option"
  timeSleep :: "go_int \<Rightarrow> 'w \<Rightarrow> 'w"
  pickDone :: "'w \<Rightarrow> bool"

record 'w Client =
  httpClient :: "'w Doer"
  servers :: "string list"
  retryCallback :: "error \<Rightarrow> bool"
  retryCount :: go_int
  retryPause :: go_int

record 'w Config =
  HTTPClient :: "'w Doer option"
  RetryCallback :: "(error \<Rightarrow> bool) option"
  RetryCount :: go_int
  RetryPause :: go_int
  Servers :: "string list"

subsection \<open>The rotation over the servers\<close>

text \<open>
  Modelled from the spec: \<^verbatim>\<open>newRoundRobinStrings\<close> and \<^verbatim>\<open>roundRobinStrings.Next\<close> are
  not in \<^verbatim>\<open>client.go\<close>.  The spec has a fixed, non-empty list of addresses whose
  construction fails on an empty list, and a cursor into it that each \<^verbatim>\<open>Next()\<close>
  advances modulo the length of the list.
\<close>

definition newRoundRobinStrings :: "string list \<Rightarrow> error + string list" where
  "newRoundRobinStrings strings = (if strings = [] then Inl ErrNoServers else Inr strings)"

definition rrNext :: "string list \<Rightarrow> 'w state \<Rightarrow> string \<times> 'w state" where
  "rrNext strings s =
     (let i = cursor s mod length strings; address = strings ! i
      in (address, s\<lparr>cursor := (i + 1) mod length strings,
                      trace := trace s @ [EvNext address]\<rparr>))"

subsection \<open>\<^verbatim>\<open>NewClient\<close>\<close>

text \<open>
  \<^verbatim>\<open>makeRetryCallback\<close> and the default \<^verbatim>\<open>http.Client\<close> are parameters: neither
  decides whether the construction fails.  The configuration is the record behind the
  pointer the code receives.
\<close>

definition NewClient ::
  "(nat \<Rightarrow> error \<Rightarrow> bool) \<Rightarrow> 'w Doer \<Rightarrow> 'w Config \<Rightarrow> error + 'w Client" where
  "NewClient makeRetryCallback defaultHTTPClient config =
     (if RetryCount config <s 0 then Inl (ErrNegativeRetryCount (RetryCount config))
      else if RetryPause config <s 0 then Inl (ErrNegativeRetryPause (RetryPause config))
      else case newRoundRobinStrings (Servers config) of
        Inl err \<Rightarrow> Inl ErrNoServers
      | Inr rrs \<Rightarrow>
          Inr \<lparr>httpClient = (case HTTPClient config of None \<Rightarrow> defaultHTTPClient | Some h \<Rightarrow> h),
               servers = rrs,
               retryCallback = (case RetryCallback config of
                                  None \<Rightarrow> makeRetryCallback (length (Servers config))
                                | Some f \<Rightarrow> f),
               retryCount = RetryCount config,
               retryPause = RetryPause config\<rparr>)"

subsection \<open>\<^verbatim>\<open>url.QueryEscape\<close>\<close>

text \<open>
  Go's \<^verbatim>\<open>url.QueryEscape\<close> on the bytes of a string: letters, digits and \<^verbatim>\<open>-_.~\<close> stay,
  a space becomes \<^verbatim>\<open>+\<close>, every other byte becomes \<^verbatim>\<open>%XX\<close> in upper-case hexadecimal.
\<close>

definition upperhex :: string where
  "upperhex = ''0123456789ABCDEF''"

definition shouldEscape :: "char \<Rightarrow> bool" where
  "shouldEscape c =
     (let n = (of_char c :: nat)
      in if (97 \<le> n \<and> n \<le> 122) \<or> (65 \<le> n \<and> n \<le> 90) \<or> (48 \<le> n \<and> n \<le> 57) then False
         else if c \<in> set ''-_.~'' then False
         else True)"

definition escapeByte :: "char \<Rightarrow> string" where
  "escapeByte c =
     (if c = CHR '' '' then ''+''
      else if shouldEscape c
        then [CHR ''%'', upperhex ! ((of_char c :: nat) div 16), upperhex ! ((of_char c :: nat) mod 16)]
      else [c])"

definition QueryEscape :: "string \<Rightarrow> string" where
  "QueryEscape s = concat (map escapeByte s)"

subsection \<open>\<^verbatim>\<open>getQuery\<close>, \<^verbatim>\<open>putQuery\<close>, \<^verbatim>\<open>readAndClose\<close>\<close>

definition doRequest ::
  "'w Client \<Rightarrow> 'w Context \<Rightarrow> http_request \<Rightarrow> 'w state \<Rightarrow> (error + http_response) \<times> 'w state" where
  "doRequest c ctx request s =
     (case httpClient c ctx request (world s) of
        (r, w) \<Rightarrow> (r, s\<lparr>world := w, trace := trace s @ [EvDo request]\<rparr>))"

definition getRequest :: "string \<Rightarrow> http_request" where
  "getRequest url = \<lparr>Method = MethodGet, URL = url, ReqBody = None, ReqHeader = []\<rparr>"

definition putRequest :: "string \<Rightarrow> string \<Rightarrow> http_request" where
  "putRequest endpoint expression =
     \<lparr>Method = MethodPut, URL = endpoint,
      ReqBody = Some (''query='' @ QueryEscape expression),
      ReqHeader = [(''Content-Type'', ''application/x-www-form-urlencoded'')]\<rparr>"

definition getQuery ::
  "'w runtime \<Rightarrow> 'w Client \<Rightarrow> 'w Context \<Rightarrow> string \<Rightarrow> 'w state
     \<Rightarrow> (error + http_response) \<times> 'w state" where
  "getQuery rt c ctx url s =
     (case newRequestErr rt MethodGet url of
        Some err \<Rightarrow> (Inl err, s)
      | None \<Rightarrow> doRequest c ctx (getRequest url) s)"

definition putQuery ::
  "'w runtime \<Rightarrow> 'w Client \<Rightarrow> 'w Context \<Rightarrow> string \<Rightarrow> string \<Rightarrow> 'w state
     \<Rightarrow> (error + http_response) \<times> 'w state" where
  "putQuery rt c ctx endpoint expression s =
     (case newRequestErr rt MethodPut endpoint of
        Some err \<Rightarrow> (Inl err, s)
      | None \<Rightarrow> doRequest c ctx (putRequest endpoint expression) s)"

definition readAndClose :: "http_body \<Rightarrow> 'w state \<Rightarrow> reply \<times> 'w state" where
  "readAndClose rc s =
     (case readAll rc of
        (buf, rerr) \<Rightarrow>
          (let cerr = closeErr rc;
               s' = s\<lparr>trace := trace s @ [EvReadAll, EvClose]\<rparr>
           in if rerr \<noteq> None then (Returns (None, rerr), s')
              else if cerr \<noteq> None then (Returns (None, cerr), s')
              else (Returns (Some buf, None), s')))"

subsection \<open>\<^verbatim>\<open>getFromRangeServer\<close>\<close>

text \<open>
  \<open>tries\<close> is the \<^verbatim>\<open>for triesRemaining := 2; triesRemaining > 0; triesRemaining--\<close>
  loop, with the loop's variables \<open>method\<close> and \<open>herr\<close> as arguments.  \<open>method\<close> is a
  string, as in the code, and the \<^verbatim>\<open>default\<close> branch of the dispatch panics.
  The panic carries the message of the code's error, without the quoting that \<^verbatim>\<open>%q\<close> adds.
\<close>

definition dispatch ::
  "'w runtime \<Rightarrow> 'w Client \<Rightarrow> 'w Context \<Rightarrow> string \<Rightarrow> string \<Rightarrow> string \<Rightarrow> string \<Rightarrow> 'w state
     \<Rightarrow> ((error + http_response) \<times> 'w state) outcome" where
  "dispatch rt c ctx endpoint uri expression method s =
     (if method = MethodGet then Returns (getQuery rt c ctx uri s)
      else if method = MethodPut then Returns (putQuery rt c ctx endpoint expression s)
      else Panics (''cannot use unsupported HTTP method: '' @ method))"

definition statusNotOK :: "http_response \<Rightarrow> error" where
  "statusNotOK response = ErrStatusNotOK (Status response) (StatusCode response)"

fun tries ::
  "'w runtime \<Rightarrow> 'w Client \<Rightarrow> 'w Context \<Rightarrow> string \<Rightarrow> string \<Rightarrow> string
     \<Rightarrow> nat \<Rightarrow> string \<Rightarrow> error option \<Rightarrow> 'w state \<Rightarrow> reply \<times> 'w state" where
  "tries rt c ctx endpoint uri expression 0 method herr s = (Returns (None, herr), s)"
| "tries rt c ctx endpoint uri expression (Suc triesRemaining) method herr s =
     (case ctx (world s) of
        Some cerr \<Rightarrow> (Returns (None, Some cerr), s)
      | None \<Rightarrow>
         (case dispatch rt c ctx endpoint uri expression method s of
            Panics msg \<Rightarrow> (Panics msg, s)
          | Returns (Inl err, s1) \<Rightarrow> (Returns (None, Some err), s1)
          | Returns (Inr response, s1) \<Rightarrow>
              if StatusCode response = StatusOK then
                (if Header response ''RangeException'' \<noteq> ''''
                 then (Returns (None, Some (ErrRangeException (Header response ''RangeException''))), s1)
                 else readAndClose (Body response) s1)
              else if StatusCode response = StatusRequestURITooLong then
                tries rt c ctx endpoint uri expression triesRemaining MethodPut
                  (Some (statusNotOK response)) s1
              else if StatusCode response = StatusMethodNotAllowed then
                tries rt c ctx endpoint uri expression triesRemaining MethodGet
                  (Some (statusNotOK response)) s1
              else
                tries rt c ctx endpoint uri expression triesRemaining method
                  (Some (statusNotOK response)) s1))"

definition endpointOf :: "string \<Rightarrow> string" where
  "endpointOf server = ''http://'' @ server @ ''/range/list''"

definition uriOf :: "string \<Rightarrow> string \<Rightarrow> string" where
  "uriOf endpoint expression = endpoint @ ''?'' @ QueryEscape expression"

definition firstMethod :: "string \<Rightarrow> string" where
  "firstMethod uri =
     (if length uri > defaultQueryLengthThreshold then MethodPut else MethodGet)"

definition getFromRangeServer ::
  "'w runtime \<Rightarrow> 'w Client \<Rightarrow> 'w Context \<Rightarrow> string \<Rightarrow> 'w state \<Rightarrow> reply \<times> 'w state" where
  "getFromRangeServer rt c ctx expression s =
     (case rrNext (servers c) s of
        (server, s0) \<Rightarrow>
          (let endpoint = endpointOf server;
               uri = uriOf endpoint expression
           in tries rt c ctx endpoint uri expression 2 (firstMethod uri) None s0))"

subsection \<open>\<^verbatim>\<open>query\<close>\<close>

text \<open>
  \<open>retryLoop\<close> is the loop of the goroutine that \<^verbatim>\<open>query\<close> spawns; it returns what
  the goroutine puts on the channel, together with the final value of its counter
  \<^verbatim>\<open>attempts\<close>.  The counter is a 64-bit integer, so \<^verbatim>\<open>attempts++\<close> wraps around and
  the loop reaches \<^verbatim>\<open>attempts == c.retryCount\<close> from every start: the function is total.
\<close>

definition pause :: "'w runtime \<Rightarrow> 'w Client \<Rightarrow> 'w state \<Rightarrow> 'w state" where
  "pause rt c s =
     (if 0 <s retryPause c
      then s\<lparr>world := timeSleep rt (retryPause c) (world s),
             trace := trace s @ [EvSleep (retryPause c)]\<rparr>
      else s)"

definition giveUp :: "'w Client \<Rightarrow> go_int \<Rightarrow> error option \<Rightarrow> bool" where
  "giveUp c attempts err =
     (attempts = retryCount c \<or> err = None \<or>
      (case err of None \<Rightarrow> True | Some e \<Rightarrow> retryCallback c e = False))"

function retryLoop ::
  "'w runtime \<Rightarrow> 'w Client \<Rightarrow> 'w Context \<Rightarrow> string \<Rightarrow> go_int \<Rightarrow> 'w state
     \<Rightarrow> (reply \<times> go_int) \<times> 'w state" where
  "retryLoop rt c ctx expression attempts s =
     (case getFromRangeServer rt c ctx expression s of
        (Panics msg, s1) \<Rightarrow> ((Panics msg, attempts), s1)
      | (Returns (buf, err), s1) \<Rightarrow>
          if giveUp c attempts err then
            (if err = None then ((Returns (buf, None), attempts), s1)
             else ((Returns (None, err), attempts), s1))
          else retryLoop rt c ctx expression (attempts + 1) (pause rt c s1))"
  by pat_completeness auto

termination retryLoop
proof (relation "measure (\<lambda>(rt, c, ctx, expression, attempts, s). unat (retryCount c - attempts))",
    goal_cases)
  case 1
  show ?case by simp
next
  case (2 rt c ctx expression attempts s x1 s1 x2 buf err)
  have e: "retryCount c - (attempts + 1) = (retryCount c - attempts) - 1" by simp
  from 2 have "retryCount c - attempts \<noteq> 0" by (auto simp: giveUp_def)
  then have "unat ((retryCount c - attempts) - 1) < unat (retryCount c - attempts)"
    by (simp add: unat_minus_one unat_gt_0)
  then show ?case by (simp add: e)
qed

declare retryLoop.simps [simp del]

text \<open>
  \<^verbatim>\<open>query\<close> spawns the goroutine and waits in a \<^verbatim>\<open>select\<close> with two cases:
  \<^verbatim>\<open>ctx.Done()\<close>, which can proceed once the context is concluded, and the channel,
  which can proceed once the goroutine has handed over its result.  A context, once
  concluded, stays concluded.

  \<^item> If the context is still live in the world in which the result is handed over, only
    the channel case can have proceeded, and \<^verbatim>\<open>query\<close> returns the result.
  \<^item> If the context is concluded by then, either case may be taken.  The context may
    have concluded while \<^verbatim>\<open>query\<close> was already waiting, and then \<^verbatim>\<open>ctx.Done()\<close> is
    taken; or both cases are ready when the \<^verbatim>\<open>select\<close> is run, and then Go's runtime
    picks one of them pseudo-randomly.  Which of the two happens is for the scheduler
    to decide and not for the code: \<open>pickDone rt w\<close> says whether the \<^verbatim>\<open>ctx.Done()\<close>
    case is taken, \<open>w\<close> being the world of the handover.

  When the \<^verbatim>\<open>ctx.Done()\<close> case is taken \<^verbatim>\<open>query\<close> returns without waiting for the
  goroutine, which runs on in the background.  The state returned here is the state that
  the goroutine leaves at its end, also in that case: it holds everything the call has
  caused, some of it possibly after \<^verbatim>\<open>query\<close> has returned.
  \<^verbatim>\<open>newResponse\<close> wraps the buffer and is left out.
\<close>

definition query :: "'w runtime \<Rightarrow> 'w Client \<Rightarrow> 'w Context \<Rightarrow> string \<Rightarrow> 'w state \<Rightarrow> reply \<times> 'w state" where
  "query rt c ctx expression s =
     (case retryLoop rt c ctx expression 0 s of
        ((Panics msg, attempts), s1) \<Rightarrow> (Panics msg, s1)
      | ((Returns rr, attempts), s1) \<Rightarrow>
          (case ctx (world s1) of
             None \<Rightarrow> (Returns rr, s1)
           | Some cerr \<Rightarrow>
               if pickDone rt (world s1) then (Returns (None, Some cerr), s1)
               else (Returns rr, s1)))"

subsection \<open>Reading a trace\<close>

fun requests :: "event list \<Rightarrow> http_request list" where
  "requests [] = []"
| "requests (EvDo r # evs) = r # requests evs"
| "requests (ev # evs) = requests evs"

fun nextCalls :: "event list \<Rightarrow> string list" where
  "nextCalls [] = []"
| "nextCalls (EvNext a # evs) = a # nextCalls evs"
| "nextCalls (ev # evs) = nextCalls evs"

text \<open>The request that an attempt with \<open>method\<close> hands to the transport, the state after
  the transport has served it, and the events between two states.\<close>

definition requestFor :: "string \<Rightarrow> string \<Rightarrow> string \<Rightarrow> string \<Rightarrow> http_request" where
  "requestFor method endpoint uri expression =
     (if method = MethodGet then getRequest uri else putRequest endpoint expression)"

definition sent :: "'w state \<Rightarrow> http_request \<Rightarrow> 'w \<Rightarrow> 'w state" where
  "sent s request w = s\<lparr>world := w, trace := trace s @ [EvDo request]\<rparr>"

definition since :: "'w state \<Rightarrow> 'w state \<Rightarrow> event list" where
  "since s s' = drop (length (trace s)) (trace s')"

subsection \<open>Example runs\<close>

text \<open>
  Concrete transports, clients and contexts on which the theorems below are instantiated.
  The world is the number of requests the transport has served so far.
\<close>

definition exampleRuntime :: "nat runtime" where
  "exampleRuntime =
     \<lparr>newRequestErr = (\<lambda>m u. None), timeSleep = (\<lambda>d w. w), pickDone = (\<lambda>w. True)\<rparr>"

definition lateResultRuntime :: "nat runtime" where
  "lateResultRuntime = exampleRuntime\<lparr>pickDone := (\<lambda>w. False)\<rparr>"

definition exampleBody :: http_body where
  "exampleBody = \<lparr>readAll = (''a b c'', None), closeErr = None\<rparr>"

definition respond :: "string \<Rightarrow> int \<Rightarrow> string \<Rightarrow> http_response" where
  "respond status code exception =
     \<lparr>Status = status, StatusCode = code,
      Header = (\<lambda>k. if k = ''RangeException'' then exception else ''''),
      Body = exampleBody\<rparr>"

definition backendAlways :: "http_response \<Rightarrow> nat Doer" where
  "backendAlways response = (\<lambda>ctx request w. (Inr response, Suc w))"

definition backendTooLongOnGet :: "nat Doer" where
  "backendTooLongOnGet =
     (\<lambda>ctx request w.
        (Inr (if Method request = MethodGet then respond ''414 Request-URI Too Long'' 414 ''''
              else respond ''200 OK'' 200 ''''), Suc w))"

definition exampleClient :: "nat Doer \<Rightarrow> go_int \<Rightarrow> nat Client" where
  "exampleClient doer n =
     \<lparr>httpClient = doer, servers = [''a'', ''b'', ''c''], retryCallback = (\<lambda>e. True),
      retryCount = n, retryPause = 0\<rparr>"

definition exampleStart :: "nat state" where
  "exampleStart = \<lparr>cursor = 0, world = 0, trace = []\<rparr>"

definition canceledAfter :: "nat \<Rightarrow> nat Context" where
  "canceledAfter k = (\<lambda>w. if k \<le> w then Some Canceled else None)"

definition exampleConfig :: "nat Config" where
  "exampleConfig =
     \<lparr>HTTPClient = None, RetryCallback = None, RetryCount = 2, RetryPause = 0,
      Servers = [''a'', ''b'', ''c'']\<rparr>"

section \<open>Properties\<close>

subsection \<open>One dispatch\<close>

lemma Method_neq: "MethodGet \<noteq> MethodPut"
  by (simp add: MethodGet_def MethodPut_def)

lemma dispatch_sends:
  assumes "method = MethodGet \<or> method = MethodPut"
    and "newRequestErr rt method (URL (requestFor method endpoint uri expression)) = None"
    and "httpClient c ctx (requestFor method endpoint uri expression) (world s) = (r, w)"
  shows "dispatch rt c ctx endpoint uri expression method s =
           Returns (r, sent s (requestFor method endpoint uri expression) w)"
  using assms Method_neq
  by (auto simp: dispatch_def getQuery_def putQuery_def doRequest_def requestFor_def sent_def
      getRequest_def putRequest_def)

lemma dispatch_newRequest_fails:
  assumes "method = MethodGet \<or> method = MethodPut"
    and "newRequestErr rt method (URL (requestFor method endpoint uri expression)) = Some err"
  shows "dispatch rt c ctx endpoint uri expression method s = Returns (Inl err, s)"
  using assms Method_neq
  by (auto simp: dispatch_def getQuery_def putQuery_def requestFor_def getRequest_def putRequest_def)

lemma dispatch_no_panic:
  "method = MethodGet \<or> method = MethodPut \<Longrightarrow>
   dispatch rt c ctx endpoint uri expression method s \<noteq> Panics msg"
  by (auto simp: dispatch_def)

lemma firstMethod_cases: "firstMethod uri = MethodGet \<or> firstMethod uri = MethodPut"
  by (simp add: firstMethod_def)

subsection \<open>One attempt of the loop\<close>

lemma tries_step:
  assumes "m = MethodGet \<or> m = MethodPut"
    and "ctx (world s) = None"
    and "newRequestErr rt m (URL (requestFor m endpoint uri expression)) = None"
    and "httpClient c ctx (requestFor m endpoint uri expression) (world s) = (Inr response, w)"
  shows "tries rt c ctx endpoint uri expression (Suc n) m herr s =
     (let s1 = sent s (requestFor m endpoint uri expression) w in
      if StatusCode response = StatusOK then
        (if Header response ''RangeException'' \<noteq> ''''
         then (Returns (None, Some (ErrRangeException (Header response ''RangeException''))), s1)
         else readAndClose (Body response) s1)
      else if StatusCode response = StatusRequestURITooLong then
        tries rt c ctx endpoint uri expression n MethodPut (Some (statusNotOK response)) s1
      else if StatusCode response = StatusMethodNotAllowed then
        tries rt c ctx endpoint uri expression n MethodGet (Some (statusNotOK response)) s1
      else tries rt c ctx endpoint uri expression n m (Some (statusNotOK response)) s1)"
  using assms(2) dispatch_sends [OF assms(1,3,4)] by (simp add: Let_def)

lemma tries_transport_error:
  assumes "m = MethodGet \<or> m = MethodPut"
    and "ctx (world s) = None"
    and "newRequestErr rt m (URL (requestFor m endpoint uri expression)) = None"
    and "httpClient c ctx (requestFor m endpoint uri expression) (world s) = (Inl err, w)"
  shows "tries rt c ctx endpoint uri expression (Suc n) m herr s =
     (Returns (None, Some err), sent s (requestFor m endpoint uri expression) w)"
  using assms(2) dispatch_sends [OF assms(1,3,4)] by simp

lemma since_sent: "since s (sent s request w) = [EvDo request]"
  by (simp add: since_def sent_def)

lemma since_append: "trace s' = trace s @ evs \<Longrightarrow> since s s' = evs"
  by (simp add: since_def)

lemma requests_append [simp]: "requests (xs @ ys) = requests xs @ requests ys"
  by (induction xs rule: requests.induct) simp_all

lemma nextCalls_append [simp]: "nextCalls (xs @ ys) = nextCalls xs @ nextCalls ys"
  by (induction xs rule: nextCalls.induct) simp_all

lemma readAndClose_eq:
  "readAndClose rc t =
     (Returns (case readAll rc of
                 (buf, Some rerr) \<Rightarrow> (None, Some rerr)
               | (buf, None) \<Rightarrow>
                   (case closeErr rc of Some cerr \<Rightarrow> (None, Some cerr) | None \<Rightarrow> (Some buf, None))),
      t\<lparr>trace := trace t @ [EvReadAll, EvClose]\<rparr>)"
  by (auto simp: readAndClose_def Let_def split: prod.splits option.splits)

subsection \<open>Example runs, evaluated\<close>

lemmas run_defs =
  getFromRangeServer_def rrNext_def endpointOf_def uriOf_def firstMethod_def
  defaultQueryLengthThreshold_def QueryEscape_def escapeByte_def shouldEscape_def
  dispatch_def getQuery_def putQuery_def doRequest_def getRequest_def putRequest_def
  readAndClose_def statusNotOK_def StatusOK_def StatusRequestURITooLong_def
  StatusMethodNotAllowed_def MethodGet_def MethodPut_def giveUp_def pause_def query_def
  requestFor_def sent_def since_def Let_def numeral_2_eq_2 retryLoop.simps

lemmas example_defs =
  exampleRuntime_def exampleBody_def respond_def backendAlways_def backendTooLongOnGet_def
  exampleClient_def exampleStart_def canceledAfter_def exampleConfig_def Background_def
  lateResultRuntime_def

lemma example_first_state:
  "rrNext (servers (exampleClient doer n)) exampleStart =
     (''a'', \<lparr>cursor = 1, world = 0, trace = [EvNext ''a'']\<rparr>)"
  by (simp add: rrNext_def exampleClient_def exampleStart_def Let_def)

lemma example_uri: "uriOf (endpointOf ''a'') ''x y'' = ''http://a/range/list?x+y''"
  by (simp add: uriOf_def endpointOf_def QueryEscape_def escapeByte_def shouldEscape_def Let_def)

lemma example_firstMethod: "firstMethod ''http://a/range/list?x+y'' = MethodGet"
  by (simp add: firstMethod_def defaultQueryLengthThreshold_def)

lemma example_resolver:
  "getFromRangeServer rt (exampleClient doer n) ctx ''x y'' exampleStart =
     tries rt (exampleClient doer n) ctx (endpointOf ''a'') ''http://a/range/list?x+y'' ''x y''
       (Suc (Suc 0)) MethodGet None \<lparr>cursor = 1, world = 0, trace = [EvNext ''a'']\<rparr>"
  by (simp add: getFromRangeServer_def example_first_state example_uri example_firstMethod
      numeral_2_eq_2 del: tries.simps)

subsection \<open>The exception header\<close>

text \<open>
  Claim C6.  \<open>tries\<close> is the loop of \<^verbatim>\<open>getFromRangeServer\<close>, so the statement holds for
  its first attempt and for its second.  Whenever an attempt is answered with status 200
  and a non-empty \<^verbatim>\<open>RangeException\<close> header, the resolver returns at once with the
  error \<^verbatim>\<open>ErrRangeException\<close> that carries the header's value; the body of the response
  is arbitrary, and the only event of the attempt is the request: the body is neither
  read nor closed.
\<close>

theorem range_exception_header:
  assumes "m = MethodGet \<or> m = MethodPut"
    and "ctx (world s) = None"
    and "newRequestErr rt m (URL (requestFor m endpoint uri expression)) = None"
    and "httpClient c ctx (requestFor m endpoint uri expression) (world s) = (Inr response, w)"
    and "StatusCode response = 200"
    and "Header response ''RangeException'' \<noteq> ''''"
  shows "tries rt c ctx endpoint uri expression (Suc n) m herr s =
           (Returns (None, Some (ErrRangeException (Header response ''RangeException''))),
            sent s (requestFor m endpoint uri expression) w) \<and>
         since s (snd (tries rt c ctx endpoint uri expression (Suc n) m herr s)) =
           [EvDo (requestFor m endpoint uri expression)]"
  using tries_step [OF assms(1-4)] assms(5,6) by (simp add: Let_def StatusOK_def since_sent)

theorem range_exception_header_witness:
  "getFromRangeServer exampleRuntime
     (exampleClient (backendAlways (respond ''200 OK'' 200 ''bad syntax'')) 0)
     Background ''x y'' exampleStart =
   (Returns (None, Some (ErrRangeException ''bad syntax'')),
    \<lparr>cursor = 1, world = 1,
     trace = [EvNext ''a'', EvDo (getRequest ''http://a/range/list?x+y'')]\<rparr>)"
proof -
  let ?s = "\<lparr>cursor = 1, world = 0::nat, trace = [EvNext ''a'']\<rparr>"
  let ?r = "respond ''200 OK'' 200 ''bad syntax''"
  let ?c = "exampleClient (backendAlways ?r) 0"
  let ?req = "requestFor MethodGet (endpointOf ''a'') ''http://a/range/list?x+y'' ''x y''"
  have h1: "MethodGet = MethodGet \<or> MethodGet = MethodPut" by simp
  have h2: "Background (world ?s) = None" by (simp add: Background_def)
  have h3: "newRequestErr exampleRuntime MethodGet (URL ?req) = None"
    by (simp add: exampleRuntime_def)
  have h4: "httpClient ?c Background ?req (world ?s) = (Inr ?r, 1)"
    by (simp add: exampleClient_def backendAlways_def)
  have h5: "StatusCode ?r = 200" by (simp add: respond_def)
  have h6: "Header ?r ''RangeException'' \<noteq> ''''" by (simp add: respond_def)
  from range_exception_header [OF h1 h2 h3 h4 h5 h6, where n = "Suc 0" and herr = None]
  show ?thesis
    by (simp add: example_resolver sent_def requestFor_def respond_def del: tries.simps)
qed

subsection \<open>Reading and closing the body\<close>

text \<open>
  Claim C7.  Whenever an attempt is answered with status 200 and no exception header, the
  resolver returns what \<^verbatim>\<open>readAndClose\<close> returns on the body.  The body is read and
  then closed in every case (both events are in the trace whatever the read yields); the
  result is the read error if the read failed, whether or not the close failed too, else
  the close error if the close failed, else the bytes read.
\<close>

theorem ok_response_read_and_closed:
  assumes "m = MethodGet \<or> m = MethodPut"
    and "ctx (world s) = None"
    and "newRequestErr rt m (URL (requestFor m endpoint uri expression)) = None"
    and "httpClient c ctx (requestFor m endpoint uri expression) (world s) = (Inr response, w)"
    and "StatusCode response = 200"
    and "Header response ''RangeException'' = ''''"
  shows "tries rt c ctx endpoint uri expression (Suc n) m herr s =
           (Returns (case readAll (Body response) of
                       (buf, Some rerr) \<Rightarrow> (None, Some rerr)
                     | (buf, None) \<Rightarrow>
                         (case closeErr (Body response) of
                            Some cerr \<Rightarrow> (None, Some cerr)
                          | None \<Rightarrow> (Some buf, None))),
            s\<lparr>world := w,
              trace := trace s @ [EvDo (requestFor m endpoint uri expression), EvReadAll, EvClose]\<rparr>) \<and>
         tries rt c ctx endpoint uri expression (Suc n) m herr s =
           readAndClose (Body response) (sent s (requestFor m endpoint uri expression) w)"
  using tries_step [OF assms(1-4)] assms(5,6)
  by (simp add: Let_def StatusOK_def readAndClose_eq sent_def)

theorem ok_response_read_and_closed_witness:
  "getFromRangeServer exampleRuntime
     (exampleClient (backendAlways (respond ''200 OK'' 200 '''')) 0)
     Background ''x y'' exampleStart =
   (Returns (Some ''a b c'', None),
    \<lparr>cursor = 1, world = 1,
     trace = [EvNext ''a'', EvDo (getRequest ''http://a/range/list?x+y''), EvReadAll, EvClose]\<rparr>) \<and>
   getFromRangeServer exampleRuntime
     (exampleClient (backendAlways ((respond ''200 OK'' 200 '''')
        \<lparr>Body := \<lparr>readAll = (''a b'', Some (ErrOther ''unexpected EOF'')),
                  closeErr = Some (ErrOther ''already closed'')\<rparr>\<rparr>)) 0)
     Background ''x y'' exampleStart =
   (Returns (None, Some (ErrOther ''unexpected EOF'')),
    \<lparr>cursor = 1, world = 1,
     trace = [EvNext ''a'', EvDo (getRequest ''http://a/range/list?x+y''), EvReadAll, EvClose]\<rparr>)"
proof -
  let ?s = "\<lparr>cursor = 1, world = 0::nat, trace = [EvNext ''a'']\<rparr>"
  let ?r = "respond ''200 OK'' 200 ''''"
  let ?r' = "?r\<lparr>Body := \<lparr>readAll = (''a b'', Some (ErrOther ''unexpected EOF'')),
                  closeErr = Some (ErrOther ''already closed'')\<rparr>\<rparr>"
  let ?req = "requestFor MethodGet (endpointOf ''a'') ''http://a/range/list?x+y'' ''x y''"
  have h1: "MethodGet = MethodGet \<or> MethodGet = MethodPut" by simp
  have h2: "Background (world ?s) = None" by (simp add: Background_def)
  have h3: "newRequestErr exampleRuntime MethodGet (URL ?req) = None"
    by (simp add: exampleRuntime_def)
  have h4: "httpClient (exampleClient (backendAlways r) 0) Background ?req (world ?s) = (Inr r, 1)"
    for r
    by (simp add: exampleClient_def backendAlways_def)
  have h5: "StatusCode ?r = 200" "StatusCode ?r' = 200" by (simp_all add: respond_def)
  have h6: "Header ?r ''RangeException'' = ''''" "Header ?r' ''RangeException'' = ''''"
    by (simp_all add: respond_def)
  from ok_response_read_and_closed [OF h1 h2 h3 h4 h5(1) h6(1), where n = "Suc 0" and herr = None]
    ok_response_read_and_closed [OF h1 h2 h3 h4 h5(2) h6(2), where n = "Suc 0" and herr = None]
  show ?thesis
    by (simp add: example_resolver sent_def requestFor_def respond_def exampleBody_def
        del: tries.simps)
qed

subsection \<open>Construction\<close>

text \<open>
  Claim C8.  \<^verbatim>\<open>NewClient\<close> returns an error exactly for the configurations with an empty
  server list, a negative retry count or a negative retry pause, and a client exactly
  for all the others.
\<close>

theorem NewClient_fails_iff:
  "((\<exists>err. NewClient makeRetryCallback defaultHTTPClient config = Inl err) =
      (Servers config = [] \<or> RetryCount config <s 0 \<or> RetryPause config <s 0)) \<and>
   ((\<exists>client. NewClient makeRetryCallback defaultHTTPClient config = Inr client) =
      (Servers config \<noteq> [] \<and> 0 \<le>s RetryCount config \<and> 0 \<le>s RetryPause config))"
  by (auto simp: NewClient_def newRoundRobinStrings_def word_sless_alt word_sle_eq)
theorem NewClient_fails_iff_witness:
  "(\<exists>client. NewClient (\<lambda>n e. True) (backendAlways (respond ''200 OK'' 200 '''')) exampleConfig =
       Inr client) \<and>
   (\<exists>err. NewClient (\<lambda>n e. True) (backendAlways (respond ''200 OK'' 200 ''''))
       (exampleConfig\<lparr>Servers := []\<rparr>) = Inl err) \<and>
   (\<exists>err. NewClient (\<lambda>n e. True) (backendAlways (respond ''200 OK'' 200 ''''))
       (exampleConfig\<lparr>RetryCount := - 1\<rparr>) = Inl err) \<and>
   (\<exists>err. NewClient (\<lambda>n e. True) (backendAlways (respond ''200 OK'' 200 ''''))
       (exampleConfig\<lparr>RetryPause := - 1\<rparr>) = Inl err)"
  using NewClient_fails_iff [of "\<lambda>n e. True" "backendAlways (respond ''200 OK'' 200 '''')" exampleConfig]
    NewClient_fails_iff [of "\<lambda>n e. True" "backendAlways (respond ''200 OK'' 200 '''')"
      "exampleConfig\<lparr>Servers := []\<rparr>"]
    NewClient_fails_iff [of "\<lambda>n e. True" "backendAlways (respond ''200 OK'' 200 '''')"
      "exampleConfig\<lparr>RetryCount := - 1\<rparr>"]
    NewClient_fails_iff [of "\<lambda>n e. True" "backendAlways (respond ''200 OK'' 200 '''')"
      "exampleConfig\<lparr>RetryPause := - 1\<rparr>"]
  by (simp add: exampleConfig_def word_sless_alt word_sle_eq)

subsection \<open>The dispatch never panics\<close>

lemma tries_no_panic:
  "m = MethodGet \<or> m = MethodPut \<Longrightarrow>
   fst (tries rt c ctx endpoint uri expression n m herr s) \<noteq> Panics msg"
proof (induction n arbitrary: m herr s)
  case 0
  show ?case by simp
next
  case (Suc n)
  from Suc.prems have d: "dispatch rt c ctx endpoint uri expression m s \<noteq> Panics msg'" for msg'
    by (rule dispatch_no_panic)
  show ?case
    using d Suc.IH [of MethodPut] Suc.IH [of MethodGet] Suc.IH [of m] Suc.prems
    by (auto simp: readAndClose_def Let_def split: option.splits outcome.splits sum.splits prod.splits)
qed

text \<open>
  Claim C9.  The method that \<^verbatim>\<open>getFromRangeServer\<close> starts with is GET or PUT, every
  later assignment keeps it so, and therefore no run of the resolver, on any client,
  context, expression and state, ends in the panic of the dispatch's default branch.
\<close>

theorem resolver_never_panics:
  "(firstMethod (uriOf (endpointOf server) expression) = MethodGet \<or>
    firstMethod (uriOf (endpointOf server) expression) = MethodPut) \<and>
   fst (getFromRangeServer rt c ctx expression s) \<noteq> Panics msg"
  using firstMethod_cases
  by (simp add: getFromRangeServer_def Let_def tries_no_panic split: prod.splits)

subsection \<open>The events of a run\<close>

lemma dispatch_cases:
  "(\<exists>msg. dispatch rt c ctx endpoint uri expression m s = Panics msg) \<or>
   (\<exists>err. dispatch rt c ctx endpoint uri expression m s = Returns (Inl err, s)) \<or>
   (\<exists>r w. dispatch rt c ctx endpoint uri expression m s =
            Returns (r, sent s (requestFor m endpoint uri expression) w))"
  by (auto simp: dispatch_def getQuery_def putQuery_def doRequest_def requestFor_def sent_def
      split: option.splits prod.splits)

lemma tries_extends:
  "\<exists>evs. trace (snd (tries rt c ctx endpoint uri expression n m herr s)) = trace s @ evs \<and>
         cursor (snd (tries rt c ctx endpoint uri expression n m herr s)) = cursor s \<and>
         nextCalls evs = [] \<and> length (requests evs) \<le> n \<and>
         (case requests evs of [] \<Rightarrow> True | r # rs \<Rightarrow> r = requestFor m endpoint uri expression)"
proof (induction n arbitrary: m herr s)
  case 0
  show ?case by simp
next
  case (Suc n)
  let ?req = "requestFor m endpoint uri expression"
  show ?case
  proof (cases "ctx (world s)")
    case (Some e)
    then show ?thesis by simp
  next
    case None
    from dispatch_cases [of rt c ctx endpoint uri expression m s]
    consider (panic) msg where "dispatch rt c ctx endpoint uri expression m s = Panics msg"
      | (refused) err where "dispatch rt c ctx endpoint uri expression m s = Returns (Inl err, s)"
      | (served) r w where "dispatch rt c ctx endpoint uri expression m s = Returns (r, sent s ?req w)"
      by blast
    then show ?thesis
    proof cases
      case panic
      with None show ?thesis by simp
    next
      case refused
      with None show ?thesis by simp
    next
      case served
      let ?s1 = "sent s ?req w"
      have t1: "trace ?s1 = trace s @ [EvDo ?req]"
        by (simp add: sent_def)
      show ?thesis
      proof (cases r)
        case (Inl err)
        with None served t1 show ?thesis by (simp add: sent_def)
      next
        case (Inr response)
        have rec: "\<exists>evs. trace (snd (tries rt c ctx endpoint uri expression n m' h' ?s1)) =
                      trace s @ EvDo ?req # evs \<and>
                    cursor (snd (tries rt c ctx endpoint uri expression n m' h' ?s1)) = cursor s \<and>
                    nextCalls evs = [] \<and> length (requests evs) \<le> n"
          for m' h'
          using Suc.IH [of m' h' ?s1] t1 by (auto simp: sent_def)
        have fin: "\<exists>evs. trace s' = trace s @ evs \<and> cursor s' = cursor s \<and> nextCalls evs = [] \<and>
            length (requests evs) \<le> Suc n \<and>
            (case requests evs of [] \<Rightarrow> True | r # rs \<Rightarrow> r = ?req)"
          if "\<exists>evs. trace s' = trace s @ EvDo ?req # evs \<and> cursor s' = cursor s \<and> nextCalls evs = [] \<and>
                length (requests evs) \<le> n" for s'
          using that by auto
        have rc: "\<exists>evs. trace (snd (readAndClose (Body response) ?s1)) = trace s @ EvDo ?req # evs \<and>
                    cursor (snd (readAndClose (Body response) ?s1)) = cursor s \<and>
                    nextCalls evs = [] \<and> length (requests evs) \<le> n"
          by (simp add: readAndClose_eq sent_def)
        have hd: "\<exists>evs. trace ?s1 = trace s @ EvDo ?req # evs \<and> cursor ?s1 = cursor s \<and>
                    nextCalls evs = [] \<and> length (requests evs) \<le> n"
          by (simp add: sent_def)
        show ?thesis
          using None served Inr fin [OF rec] fin [OF rc] fin [OF hd]
          by (simp del: ex_simps)
      qed
    qed
  qed
qed

lemma resolver_extends:
  "\<exists>evs. trace (snd (getFromRangeServer rt c ctx expression s)) =
           trace s @ EvNext (servers c ! (cursor s mod length (servers c))) # evs \<and>
         nextCalls evs = [] \<and> length (requests evs) \<le> 2 \<and>
         (case requests evs of [] \<Rightarrow> True
          | r # rs \<Rightarrow> r = requestFor
              (firstMethod (uriOf (endpointOf (servers c ! (cursor s mod length (servers c)))) expression))
              (endpointOf (servers c ! (cursor s mod length (servers c))))
              (uriOf (endpointOf (servers c ! (cursor s mod length (servers c)))) expression)
              expression)"
proof -
  let ?server = "servers c ! (cursor s mod length (servers c))"
  let ?s0 = "snd (rrNext (servers c) s)"
  have g: "getFromRangeServer rt c ctx expression s =
      tries rt c ctx (endpointOf ?server) (uriOf (endpointOf ?server) expression) expression 2
        (firstMethod (uriOf (endpointOf ?server) expression)) None ?s0"
    by (simp add: getFromRangeServer_def rrNext_def Let_def)
  have t0: "trace ?s0 = trace s @ [EvNext ?server]"
    by (simp add: rrNext_def Let_def)
  from tries_extends [of rt c ctx "endpointOf ?server" "uriOf (endpointOf ?server) expression"
      expression 2 "firstMethod (uriOf (endpointOf ?server) expression)" None ?s0]
  obtain evs where
    e: "trace (snd (getFromRangeServer rt c ctx expression s)) = trace ?s0 @ evs"
      "nextCalls evs = []" "length (requests evs) \<le> 2"
      "case requests evs of [] \<Rightarrow> True
       | r # rs \<Rightarrow> r = requestFor (firstMethod (uriOf (endpointOf ?server) expression))
           (endpointOf ?server) (uriOf (endpointOf ?server) expression) expression"
    unfolding g by blast
  from e(1) have "trace (snd (getFromRangeServer rt c ctx expression s)) =
      trace s @ EvNext ?server # evs"
    by (simp add: t0)
  with e(2-4) show ?thesis by blast
qed

lemma resolver_cursor:
  "cursor (snd (getFromRangeServer rt c ctx expression s)) =
     (cursor s mod length (servers c) + 1) mod length (servers c)"
  using tries_extends [of rt c ctx _ _ expression 2 _ None "snd (rrNext (servers c) s)"]
  by (auto simp: getFromRangeServer_def rrNext_def Let_def)

lemma resolver_Returns: "\<exists>rr. fst (getFromRangeServer rt c ctx expression s) = Returns rr"
proof -
  have "fst (getFromRangeServer rt c ctx expression s) \<noteq> Panics msg" for msg
    using firstMethod_cases
    by (simp add: getFromRangeServer_def Let_def tries_no_panic split: prod.splits)
  then show ?thesis
    by (cases "fst (getFromRangeServer rt c ctx expression s)") auto
qed

lemma retryLoop_stop:
  "getFromRangeServer rt c ctx expression s = (Returns (buf, err), s1) \<Longrightarrow>
   giveUp c attempts err \<Longrightarrow>
   retryLoop rt c ctx expression attempts s =
     ((Returns (if err = None then buf else None, err), attempts), s1)"
  by (subst retryLoop.simps) simp

lemma retryLoop_again:
  "getFromRangeServer rt c ctx expression s = (Returns (buf, err), s1) \<Longrightarrow>
   \<not> giveUp c attempts err \<Longrightarrow>
   retryLoop rt c ctx expression attempts s =
     retryLoop rt c ctx expression (attempts + 1) (pause rt c s1)"
  by (subst retryLoop.simps) simp

lemma retryLoop_Returns:
  "\<exists>rr n. fst (retryLoop rt c ctx expression attempts s) = (Returns rr, n)"
proof (induction rt c ctx expression attempts s rule: retryLoop.induct)
  case (1 rt c ctx expression attempts s)
  obtain out s1 where g: "getFromRangeServer rt c ctx expression s = (out, s1)"
    by (cases "getFromRangeServer rt c ctx expression s")
  with resolver_Returns [of rt c ctx expression s] obtain buf err where o: "out = Returns (buf, err)"
    by auto
  show ?case
  proof (cases "giveUp c attempts err")
    case True
    from retryLoop_stop [OF g [unfolded o] True] show ?thesis by simp
  next
    case False
    from "1.IH" [OF g [symmetric, unfolded o] refl refl False]
    show ?thesis unfolding retryLoop_again [OF g [unfolded o] False] .
  qed
qed

lemma pause_trace:
  "\<exists>evs. trace (pause rt c s) = trace s @ evs \<and> nextCalls evs = [] \<and> requests evs = []"
  by (simp add: pause_def)

lemma pause_cursor: "cursor (pause rt c s) = cursor s"
  by (simp add: pause_def)

lemma retryLoop_extends:
  "\<exists>evs. trace (snd (retryLoop rt c ctx expression attempts s)) =
           trace s @ EvNext (servers c ! (cursor s mod length (servers c))) # evs"
proof (induction rt c ctx expression attempts s rule: retryLoop.induct)
  case (1 rt c ctx expression attempts s)
  obtain out s1 where g: "getFromRangeServer rt c ctx expression s = (out, s1)"
    by (cases "getFromRangeServer rt c ctx expression s")
  with resolver_Returns [of rt c ctx expression s] obtain buf err where o: "out = Returns (buf, err)"
    by auto
  from resolver_extends [of rt c ctx expression s] g obtain evs1 where
    t1: "trace s1 = trace s @ EvNext (servers c ! (cursor s mod length (servers c))) # evs1"
    by auto
  show ?case
  proof (cases "giveUp c attempts err")
    case True
    from retryLoop_stop [OF g [unfolded o] True] t1 show ?thesis by simp
  next
    case False
    from "1.IH" [OF g [symmetric, unfolded o] refl refl False] obtain evs2 where
      "trace (snd (retryLoop rt c ctx expression (attempts + 1) (pause rt c s1))) =
         trace (pause rt c s1) @ evs2"
      by blast
    moreover from pause_trace [of rt c s1] obtain evs3 where
      "trace (pause rt c s1) = trace s1 @ evs3"
      by blast
    ultimately show ?thesis
      unfolding retryLoop_again [OF g [unfolded o] False] using t1 by simp
  qed
qed

subsection \<open>Cancellation\<close>

lemma resolver_ctx_done:
  "ctx (world s) = Some cerr \<Longrightarrow>
   getFromRangeServer rt c ctx expression s =
     (Returns (None, Some cerr), snd (rrNext (servers c) s))"
  by (simp add: getFromRangeServer_def rrNext_def Let_def numeral_2_eq_2)

lemma retryLoop_ctx_done:
  "\<forall>w. ctx w = Some cerr \<Longrightarrow>
   \<exists>k s1 evs. retryLoop rt c ctx expression attempts s = ((Returns (None, Some cerr), k), s1) \<and>
     trace s1 = trace s @ evs \<and> requests evs = []"
proof (induction rt c ctx expression attempts s rule: retryLoop.induct)
  case (1 rt c ctx expression attempts s)
  let ?s0 = "snd (rrNext (servers c) s)"
  from "1.prems" have "ctx (world s) = Some cerr" by simp
  then have g: "getFromRangeServer rt c ctx expression s = (Returns (None, Some cerr), ?s0)"
    by (rule resolver_ctx_done)
  have t0: "trace ?s0 = trace s @ [EvNext (fst (rrNext (servers c) s))]"
    by (simp add: rrNext_def Let_def)
  show ?case
  proof (cases "giveUp c attempts (Some cerr)")
    case True
    from retryLoop_stop [OF g True] t0 show ?thesis by simp
  next
    case False
    from "1.IH" [OF g [symmetric] refl refl False "1.prems"] obtain k s1 evs where
      r: "retryLoop rt c ctx expression (attempts + 1) (pause rt c ?s0) =
          ((Returns (None, Some cerr), k), s1)"
        "trace s1 = trace (pause rt c ?s0) @ evs" "requests evs = []"
      by blast
    from pause_trace [of rt c ?s0] obtain evs' where
      p: "trace (pause rt c ?s0) = trace ?s0 @ evs'" "requests evs' = []"
      by blast
    have "trace s1 = trace s @ (EvNext (fst (rrNext (servers c) s)) # evs' @ evs)"
      by (simp add: r(2) p(1) t0)
    moreover have "requests (EvNext (fst (rrNext (servers c) s)) # evs' @ evs) = []"
      by (simp add: r(3) p(2))
    ultimately show ?thesis
      unfolding retryLoop_again [OF g False] using r(1) by blast
  qed
qed

text \<open>
  Claim C4, as the code has it.  Every attempt of the loop first looks at the context: if
  it is concluded, the attempt returns the context's error and leaves the state as it
  was, so the transport is not invoked; a resolver invocation whose context is concluded
  from the start selects a server and sends nothing.  At the top level, a call whose
  context is concluded throughout returns the context's error, whichever case its
  \<^verbatim>\<open>select\<close> takes, and no request is ever sent.  If the context is concluded by the
  time the retry loop hands over its result, \<^verbatim>\<open>query\<close> returns the context's error and
  drops the result when the \<^verbatim>\<open>select\<close> takes the \<^verbatim>\<open>ctx.Done()\<close> case, and returns
  the result when it takes the channel case.  If the context is still live then,
  \<^verbatim>\<open>query\<close> returns the result.
\<close>

theorem cancellation_checked:
  "(ctx (world s) = Some cerr \<longrightarrow>
      tries rt c ctx endpoint uri expression (Suc n) m herr s = (Returns (None, Some cerr), s) \<and>
      getFromRangeServer rt c ctx expression s =
        (Returns (None, Some cerr), snd (rrNext (servers c) s)) \<and>
      requests (since s (snd (getFromRangeServer rt c ctx expression s))) = []) \<and>
   ((\<forall>w. ctx w = Some cerr) \<longrightarrow>
      fst (query rt c ctx expression s) = Returns (None, Some cerr) \<and>
      requests (since s (snd (query rt c ctx expression s))) = []) \<and>
   (ctx (world (snd (retryLoop rt c ctx expression 0 s))) = Some cerr' \<longrightarrow>
      query rt c ctx expression s =
        (if pickDone rt (world (snd (retryLoop rt c ctx expression 0 s)))
         then Returns (None, Some cerr')
         else fst (fst (retryLoop rt c ctx expression 0 s)),
         snd (retryLoop rt c ctx expression 0 s))) \<and>
   (ctx (world (snd (retryLoop rt c ctx expression 0 s))) = None \<longrightarrow>
      query rt c ctx expression s =
        (fst (fst (retryLoop rt c ctx expression 0 s)), snd (retryLoop rt c ctx expression 0 s)))"
proof (intro conjI impI)
  assume a: "ctx (world s) = Some cerr"
  then show "tries rt c ctx endpoint uri expression (Suc n) m herr s = (Returns (None, Some cerr), s)"
    by simp
  from a show g: "getFromRangeServer rt c ctx expression s =
      (Returns (None, Some cerr), snd (rrNext (servers c) s))"
    by (rule resolver_ctx_done)
  show "requests (since s (snd (getFromRangeServer rt c ctx expression s))) = []"
    unfolding g by (simp add: rrNext_def Let_def since_def)
next
  assume a: "\<forall>w. ctx w = Some cerr"
  from retryLoop_ctx_done [OF a, of rt c expression 0 s] obtain k s1 evs where
    r: "retryLoop rt c ctx expression 0 s = ((Returns (None, Some cerr), k), s1)"
      "trace s1 = trace s @ evs" "requests evs = []"
    by blast
  from a have d: "ctx (world s1) = Some cerr" by simp
  have q: "query rt c ctx expression s = (Returns (None, Some cerr), s1)"
    by (simp add: query_def r(1) d)
  show "fst (query rt c ctx expression s) = Returns (None, Some cerr)"
    by (simp add: q)
  show "requests (since s (snd (query rt c ctx expression s))) = []"
    by (simp add: q since_def r(2,3))
next
  assume a: "ctx (world (snd (retryLoop rt c ctx expression 0 s))) = Some cerr'"
  from retryLoop_Returns [of rt c ctx expression 0 s] obtain rr k s1 where
    r: "retryLoop rt c ctx expression 0 s = ((Returns rr, k), s1)"
    by (cases "retryLoop rt c ctx expression 0 s") auto
  with a show "query rt c ctx expression s =
        (if pickDone rt (world (snd (retryLoop rt c ctx expression 0 s)))
         then Returns (None, Some cerr')
         else fst (fst (retryLoop rt c ctx expression 0 s)),
         snd (retryLoop rt c ctx expression 0 s))"
    by (simp add: query_def)
next
  assume a: "ctx (world (snd (retryLoop rt c ctx expression 0 s))) = None"
  from retryLoop_Returns [of rt c ctx expression 0 s] obtain rr k s1 where
    r: "retryLoop rt c ctx expression 0 s = ((Returns rr, k), s1)"
    by (cases "retryLoop rt c ctx expression 0 s") auto
  with a show "query rt c ctx expression s =
        (fst (fst (retryLoop rt c ctx expression 0 s)), snd (retryLoop rt c ctx expression 0 s))"
    by (simp add: query_def)
qed

theorem cancellation_checked_witness:
  "tries exampleRuntime (exampleClient (backendAlways (respond ''200 OK'' 200 '''')) 0)
     (canceledAfter 1) (endpointOf ''a'') ''http://a/range/list?x+y'' ''x y'' (Suc 0) MethodGet
     (Some (ErrStatusNotOK ''405 Method Not Allowed'' 405))
     \<lparr>cursor = 1, world = 1, trace = [EvNext ''a'', EvDo (putRequest (endpointOf ''a'') ''x y'')]\<rparr> =
   (Returns (None, Some Canceled),
    \<lparr>cursor = 1, world = 1, trace = [EvNext ''a'', EvDo (putRequest (endpointOf ''a'') ''x y'')]\<rparr>) \<and>
   getFromRangeServer exampleRuntime (exampleClient (backendAlways (respond ''200 OK'' 200 '''')) 0)
     (canceledAfter 0) ''x y'' exampleStart =
   (Returns (None, Some Canceled), \<lparr>cursor = 1, world = 0, trace = [EvNext ''a'']\<rparr>) \<and>
   fst (query exampleRuntime (exampleClient (backendAlways (respond ''200 OK'' 200 '''')) 0)
     (canceledAfter 0) ''x y'' exampleStart) = Returns (None, Some Canceled) \<and>
   requests (since exampleStart (snd (query exampleRuntime
     (exampleClient (backendAlways (respond ''200 OK'' 200 '''')) 0)
     (canceledAfter 0) ''x y'' exampleStart))) = [] \<and>
   query exampleRuntime (exampleClient (backendAlways (respond ''200 OK'' 200 '''')) 0)
     (canceledAfter 1) ''x y'' exampleStart =
   (Returns (None, Some Canceled),
    \<lparr>cursor = 1, world = 1,
     trace = [EvNext ''a'', EvDo (getRequest ''http://a/range/list?x+y''), EvReadAll, EvClose]\<rparr>) \<and>
   query exampleRuntime (exampleClient (backendAlways (respond ''200 OK'' 200 '''')) 0)
     (canceledAfter 2) ''x y'' exampleStart =
   (Returns (Some ''a b c'', None),
    \<lparr>cursor = 1, world = 1,
     trace = [EvNext ''a'', EvDo (getRequest ''http://a/range/list?x+y''), EvReadAll, EvClose]\<rparr>)"
proof -
  let ?c = "exampleClient (backendAlways (respond ''200 OK'' 200 '''')) 0"
  let ?s1 = "\<lparr>cursor = 1, world = 1::nat,
     trace = [EvNext ''a'', EvDo (putRequest (endpointOf ''a'') ''x y'')]\<rparr>"
  let ?fin = "\<lparr>cursor = 1, world = 1::nat,
     trace = [EvNext ''a'', EvDo (getRequest ''http://a/range/list?x+y''), EvReadAll, EvClose]\<rparr>"
  have run: "retryLoop exampleRuntime ?c (canceledAfter k) ''x y'' 0 exampleStart =
      ((Returns (Some ''a b c'', None), 0), ?fin)" if "0 < k" for k
    using that by (simp add: run_defs example_defs)
  have run1: "retryLoop exampleRuntime ?c (canceledAfter 1) ''x y'' 0 exampleStart =
      ((Returns (Some ''a b c'', None), 0), ?fin)"
    by (rule run) simp
  have run2: "retryLoop exampleRuntime ?c (canceledAfter 2) ''x y'' 0 exampleStart =
      ((Returns (Some ''a b c'', None), 0), ?fin)"
    by (rule run) simp
  have h1: "canceledAfter 1 (world ?s1) = Some Canceled"
    by (simp add: canceledAfter_def)
  have h2: "canceledAfter 0 (world exampleStart) = Some Canceled"
    by (simp add: canceledAfter_def)
  have h2': "\<forall>w. canceledAfter 0 w = Some Canceled"
    by (simp add: canceledAfter_def)
  have h3: "canceledAfter 1 (world (snd (retryLoop exampleRuntime ?c (canceledAfter 1) ''x y'' 0
      exampleStart))) = Some Canceled"
    unfolding run1 by (simp add: canceledAfter_def)
  have h4: "canceledAfter 2 (world (snd (retryLoop exampleRuntime ?c (canceledAfter 2) ''x y'' 0
      exampleStart))) = None"
    unfolding run2 by (simp add: canceledAfter_def)
  have pk: "pickDone exampleRuntime w" for w
    by (simp add: exampleRuntime_def)
  note t1 = cancellation_checked [where ctx = "canceledAfter 1" and s = ?s1 and cerr = Canceled
      and rt = exampleRuntime and c = ?c and endpoint = "endpointOf ''a''"
      and uri = "''http://a/range/list?x+y''" and expression = "''x y''" and n = 0
      and m = MethodGet and herr = "Some (ErrStatusNotOK ''405 Method Not Allowed'' 405)"]
  note t2 = cancellation_checked [where ctx = "canceledAfter 0" and s = exampleStart
      and cerr = Canceled and rt = exampleRuntime and c = ?c and expression = "''x y''"]
  note t3 = cancellation_checked [where ctx = "canceledAfter 1" and s = exampleStart
      and cerr' = Canceled and rt = exampleRuntime and c = ?c and expression = "''x y''"]
  note t4 = cancellation_checked [where ctx = "canceledAfter 2" and s = exampleStart
      and rt = exampleRuntime and c = ?c and expression = "''x y''"]
  from t1 h1 have a: "tries exampleRuntime ?c (canceledAfter 1) (endpointOf ''a'')
      ''http://a/range/list?x+y'' ''x y'' (Suc 0) MethodGet
      (Some (ErrStatusNotOK ''405 Method Not Allowed'' 405)) ?s1 =
      (Returns (None, Some Canceled), ?s1)"
    by blast
  from t2 h2 have "getFromRangeServer exampleRuntime ?c (canceledAfter 0) ''x y'' exampleStart =
      (Returns (None, Some Canceled), snd (rrNext (servers ?c) exampleStart))"
    by blast
  then have b: "getFromRangeServer exampleRuntime ?c (canceledAfter 0) ''x y'' exampleStart =
      (Returns (None, Some Canceled), \<lparr>cursor = 1, world = 0, trace = [EvNext ''a'']\<rparr>)"
    by (simp add: example_first_state)
  from t2 h2' have d: "fst (query exampleRuntime ?c (canceledAfter 0) ''x y'' exampleStart) =
      Returns (None, Some Canceled)"
    "requests (since exampleStart (snd (query exampleRuntime ?c (canceledAfter 0) ''x y''
      exampleStart))) = []"
    by blast+
  from t3 [THEN conjunct2, THEN conjunct2, THEN conjunct1, rule_format, OF h3]
  have e: "query exampleRuntime ?c (canceledAfter 1) ''x y'' exampleStart =
      (Returns (None, Some Canceled), ?fin)"
    unfolding run1 by (simp add: pk)
  from t4 [THEN conjunct2, THEN conjunct2, THEN conjunct2, rule_format, OF h4]
  have f: "query exampleRuntime ?c (canceledAfter 2) ''x y'' exampleStart =
      (Returns (Some ''a b c'', None), ?fin)"
    unfolding run2 by simp
  from a b d e f show ?thesis by blast
qed

text \<open>
  The context is live when the call starts and is concluded while the only request is
  with the transport, which answers 200 all the same.  With a \<^verbatim>\<open>select\<close> that takes
  the channel case, the call returns the body that arrived after the cancellation.
\<close>

theorem late_result_counterexample:
  "canceledAfter 1 (world exampleStart) = None \<and>
   canceledAfter 1 (world (snd (retryLoop lateResultRuntime
      (exampleClient (backendAlways (respond ''200 OK'' 200 '''')) 0)
      (canceledAfter 1) ''x y'' 0 exampleStart))) = Some Canceled \<and>
   query lateResultRuntime (exampleClient (backendAlways (respond ''200 OK'' 200 '''')) 0)
     (canceledAfter 1) ''x y'' exampleStart =
   (Returns (Some ''a b c'', None),
    \<lparr>cursor = 1, world = 1,
     trace = [EvNext ''a'', EvDo (getRequest ''http://a/range/list?x+y''), EvReadAll, EvClose]\<rparr>)"
  by (simp add: run_defs example_defs)

subsection \<open>The escaped expression and the first request\<close>

lemma length_escapeByte: "1 \<le> length (escapeByte ch)"
  by (simp add: escapeByte_def)

lemma length_QueryEscape: "length e \<le> length (QueryEscape e)"
proof (induction e)
  case Nil
  show ?case by (simp add: QueryEscape_def)
next
  case (Cons ch e)
  with length_escapeByte [of ch] show ?case by (simp add: QueryEscape_def)
qed

lemma Method_requestFor:
  "m = MethodGet \<or> m = MethodPut \<Longrightarrow> Method (requestFor m endpoint uri expression) = m"
  by (auto simp: requestFor_def getRequest_def putRequest_def)

lemma tries_first_sent:
  assumes "m = MethodGet \<or> m = MethodPut"
    and "ctx (world s) = None"
    and "newRequestErr rt m (URL (requestFor m endpoint uri expression)) = None"
  shows "\<exists>evs. trace (snd (tries rt c ctx endpoint uri expression (Suc n) m herr s)) =
           trace s @ EvDo (requestFor m endpoint uri expression) # evs"
proof -
  let ?req = "requestFor m endpoint uri expression"
  obtain r w where h: "httpClient c ctx ?req (world s) = (r, w)"
    by (cases "httpClient c ctx ?req (world s)")
  let ?s1 = "sent s ?req w"
  have t1: "trace ?s1 = trace s @ [EvDo ?req]"
    by (simp add: sent_def)
  have rec: "\<exists>evs. trace (snd (tries rt c ctx endpoint uri expression n m' h' ?s1)) =
      trace s @ EvDo ?req # evs" for m' h'
    using tries_extends [of rt c ctx endpoint uri expression n m' h' ?s1] t1 by auto
  have rc: "\<exists>evs. trace (snd (readAndClose rc' ?s1)) = trace s @ EvDo ?req # evs" for rc'
    by (simp add: readAndClose_eq t1)
  show ?thesis
  proof (cases r)
    case (Inl err)
    with tries_transport_error [where ctx = ctx and s = s, OF assms(1,2,3), of c err w n herr] h t1
    show ?thesis by simp
  next
    case (Inr response)
    with tries_step [where ctx = ctx and s = s, OF assms(1,2,3), of c response w n herr] h rec rc t1
    show ?thesis by (simp add: Let_def del: tries.simps)
  qed
qed

subsection \<open>The first method\<close>

text \<open>
  Claim C5.  In every resolver invocation the first request handed to the transport, if
  there is one, is a PUT if the GET URI is longer than the threshold of 4096 and a GET
  otherwise; so it is a PUT if and only if the URI is longer than 4096.  The URI contains
  the escaped expression, which is no shorter than the expression, so an expression
  longer than the threshold is sent by PUT first.  There is a first request whenever the
  context is live and \<^verbatim>\<open>http.NewRequest\<close> does not fail.
\<close>

theorem first_method_by_length:
  "(case requests (since s (snd (getFromRangeServer rt c ctx expression s))) of
      [] \<Rightarrow> True
    | r # rs \<Rightarrow>
        Method r =
          (if length (uriOf (endpointOf (fst (rrNext (servers c) s))) expression)
                > defaultQueryLengthThreshold
           then MethodPut else MethodGet) \<and>
        (Method r = MethodPut) =
          (4096 < length (uriOf (endpointOf (fst (rrNext (servers c) s))) expression))) \<and>
   (4096 < length expression \<longrightarrow>
      4096 < length (uriOf (endpointOf (fst (rrNext (servers c) s))) expression)) \<and>
   (ctx (world s) = None \<and> (\<forall>m u. newRequestErr rt m u = None) \<longrightarrow>
      requests (since s (snd (getFromRangeServer rt c ctx expression s))) \<noteq> [])"
proof (intro conjI impI)
  let ?server = "servers c ! (cursor s mod length (servers c))"
  let ?uri = "uriOf (endpointOf ?server) expression"
  let ?s' = "snd (getFromRangeServer rt c ctx expression s)"
  have srv: "fst (rrNext (servers c) s) = ?server"
    by (simp add: rrNext_def Let_def)
  from resolver_extends [of rt c ctx expression s] obtain evs where
    e: "trace ?s' = trace s @ EvNext ?server # evs"
      "case requests evs of [] \<Rightarrow> True
       | r # rs \<Rightarrow> r = requestFor (firstMethod ?uri) (endpointOf ?server) ?uri expression"
    by blast
  from e(1) have since: "requests (since s ?s') = requests evs"
    by (simp add: since_def)
  have m: "Method (requestFor (firstMethod ?uri) (endpointOf ?server) ?uri expression) =
      firstMethod ?uri"
    using firstMethod_cases by (rule Method_requestFor)
  show "case requests (since s ?s') of
      [] \<Rightarrow> True
    | r # rs \<Rightarrow>
        Method r =
          (if length (uriOf (endpointOf (fst (rrNext (servers c) s))) expression)
                > defaultQueryLengthThreshold
           then MethodPut else MethodGet) \<and>
        (Method r = MethodPut) =
          (4096 < length (uriOf (endpointOf (fst (rrNext (servers c) s))) expression))"
    unfolding since srv using e(2) m Method_neq
    by (auto simp: firstMethod_def defaultQueryLengthThreshold_def split: list.splits)
  show "4096 < length (uriOf (endpointOf (fst (rrNext (servers c) s))) expression)"
    if "4096 < length expression"
    using that length_QueryEscape [of expression] by (simp add: uriOf_def)
  show "requests (since s ?s') \<noteq> []"
    if "ctx (world s) = None \<and> (\<forall>m u. newRequestErr rt m u = None)"
  proof -
    let ?s0 = "snd (rrNext (servers c) s)"
    have g: "getFromRangeServer rt c ctx expression s =
        tries rt c ctx (endpointOf ?server) ?uri expression (Suc (Suc 0)) (firstMethod ?uri) None ?s0"
      by (simp add: getFromRangeServer_def rrNext_def Let_def numeral_2_eq_2 del: tries.simps)
    have t0: "trace ?s0 = trace s @ [EvNext ?server]" and w0: "world ?s0 = world s"
      by (simp_all add: rrNext_def Let_def)
    from that have "ctx (world ?s0) = None"
      and "newRequestErr rt (firstMethod ?uri)
        (URL (requestFor (firstMethod ?uri) (endpointOf ?server) ?uri expression)) = None"
      by (simp_all add: w0)
    from tries_first_sent [where ctx = ctx and s = ?s0, OF firstMethod_cases this, of c "Suc 0" None]
    obtain evs' where "trace ?s' = trace ?s0 @
        EvDo (requestFor (firstMethod ?uri) (endpointOf ?server) ?uri expression) # evs'"
      unfolding g by blast
    then show ?thesis
      by (simp add: since_def t0)
  qed
qed

theorem first_method_by_length_witness:
  "(\<exists>r rs. requests (since exampleStart (snd (getFromRangeServer exampleRuntime
        (exampleClient (backendAlways (respond ''200 OK'' 200 '''')) 0) Background
        (replicate 5000 (CHR ''x'')) exampleStart))) = r # rs \<and> Method r = MethodPut) \<and>
   (\<exists>r rs. requests (since exampleStart (snd (getFromRangeServer exampleRuntime
        (exampleClient (backendAlways (respond ''200 OK'' 200 '''')) 0) Background
        ''x y'' exampleStart))) = r # rs \<and> Method r = MethodGet)"
proof -
  let ?c = "exampleClient (backendAlways (respond ''200 OK'' 200 '''')) 0"
  have live: "Background (world exampleStart) = None \<and>
      (\<forall>m u. newRequestErr exampleRuntime m u = None)"
    by (simp add: Background_def exampleRuntime_def)
  have long: "4096 < length (replicate 5000 (CHR ''x''))"
    by simp
  have short: "\<not> 4096 < length (uriOf (endpointOf (fst (rrNext (servers ?c) exampleStart))) ''x y'')"
    by (simp add: example_first_state example_uri)
  from first_method_by_length [where s = exampleStart and rt = exampleRuntime and c = ?c
      and ctx = Background and expression = "replicate 5000 (CHR ''x'')"] live long
  have a: "\<exists>r rs. requests (since exampleStart (snd (getFromRangeServer exampleRuntime ?c
      Background (replicate 5000 (CHR ''x'')) exampleStart))) = r # rs \<and> Method r = MethodPut"
    by (auto split: list.splits)
  from first_method_by_length [where s = exampleStart and rt = exampleRuntime and c = ?c
      and ctx = Background and expression = "''x y''"] live short
  have b: "\<exists>r rs. requests (since exampleStart (snd (getFromRangeServer exampleRuntime ?c
      Background ''x y'' exampleStart))) = r # rs \<and> Method r = MethodGet"
    by (auto simp: defaultQueryLengthThreshold_def split: list.splits)
  from a b show ?thesis by (rule conjI)
qed

subsection \<open>One round of the retry loop\<close>

text \<open>
  Claim C3.  After a resolver call that returned \<open>(buf, err)\<close>, the retry loop stops
  exactly when the counter equals the retry count, or the error is absent, or the retry
  callback returns false on the error: then it returns that error (or the buffer, when
  the error is absent) with the counter unchanged and nothing more happens.  Otherwise it
  goes on with the counter incremented, after sleeping when the pause is positive, and the
  resolver is called again: the run selects a server more than once.
\<close>

theorem retry_loop_step:
  assumes "getFromRangeServer rt c ctx expression s = (Returns (buf, err), s1)"
  shows "retryLoop rt c ctx expression attempts s =
           (if attempts = retryCount c \<or> err = None \<or>
               (\<exists>e. err = Some e \<and> retryCallback c e = False)
            then ((Returns (if err = None then buf else None, err), attempts), s1)
            else retryLoop rt c ctx expression (attempts + 1)
                   (if 0 <s retryPause c
                    then s1\<lparr>world := timeSleep rt (retryPause c) (world s1),
                            trace := trace s1 @ [EvSleep (retryPause c)]\<rparr>
                    else s1)) \<and>
         (length (nextCalls (since s (snd (retryLoop rt c ctx expression attempts s)))) = 1) =
           (attempts = retryCount c \<or> err = None \<or>
            (\<exists>e. err = Some e \<and> retryCallback c e = False))"
proof -
  let ?stop = "attempts = retryCount c \<or> err = None \<or>
    (\<exists>e. err = Some e \<and> retryCallback c e = False)"
  have gu: "giveUp c attempts err = ?stop"
    by (cases err) (simp_all add: giveUp_def)
  from resolver_extends [of rt c ctx expression s] assms obtain evs1 where
    t1: "trace s1 = trace s @ EvNext (servers c ! (cursor s mod length (servers c))) # evs1"
      "nextCalls evs1 = []"
    by auto
  show ?thesis
  proof (cases ?stop)
    case True
    with gu have "giveUp c attempts err" by simp
    from retryLoop_stop [OF assms this] True t1 show ?thesis
      by (simp add: since_def)
  next
    case False
    with gu have ng: "\<not> giveUp c attempts err" by simp
    from pause_trace [of rt c s1] obtain evs3 where
      t3: "trace (pause rt c s1) = trace s1 @ evs3" "nextCalls evs3 = []"
      by blast
    from retryLoop_extends [of rt c ctx expression "attempts + 1" "pause rt c s1"]
    obtain evs2 where
      t2: "trace (snd (retryLoop rt c ctx expression (attempts + 1) (pause rt c s1))) =
        trace (pause rt c s1) @
        EvNext (servers c ! (cursor (pause rt c s1) mod length (servers c))) # evs2"
      by blast
    have eq: "retryLoop rt c ctx expression attempts s =
        retryLoop rt c ctx expression (attempts + 1) (pause rt c s1)"
      by (rule retryLoop_again [OF assms ng])
    have neq: "(length (nextCalls (since s (snd (retryLoop rt c ctx expression attempts s)))) = 1)
        = False"
      unfolding eq using t1 t2 t3 by (simp add: since_def)
    have A: "retryLoop rt c ctx expression attempts s =
           (if ?stop
            then ((Returns (if err = None then buf else None, err), attempts), s1)
            else retryLoop rt c ctx expression (attempts + 1)
                   (if 0 <s retryPause c
                    then s1\<lparr>world := timeSleep rt (retryPause c) (world s1),
                            trace := trace s1 @ [EvSleep (retryPause c)]\<rparr>
                    else s1))"
      using False eq by (simp only: pause_def if_False)
    have B: "(length (nextCalls (since s (snd (retryLoop rt c ctx expression attempts s)))) = 1)
        = ?stop"
      using False by (simp only: neq simp_thms)
    from A B show ?thesis by (rule conjI)
  qed
qed

subsection \<open>Two attempts, step by step\<close>

lemma example_500:
  "getFromRangeServer exampleRuntime
     (exampleClient (backendAlways (respond ''500 Internal Server Error'' 500 '''')) n)
     Background ''x y'' exampleStart =
   (Returns (None, Some (ErrStatusNotOK ''500 Internal Server Error'' 500)),
    \<lparr>cursor = 1, world = 2,
     trace = [EvNext ''a'', EvDo (getRequest ''http://a/range/list?x+y''),
              EvDo (getRequest ''http://a/range/list?x+y'')]\<rparr>)"
  by (simp add: run_defs example_defs)

theorem retry_loop_step_witness:
  "retryLoop exampleRuntime
     (exampleClient (backendAlways (respond ''500 Internal Server Error'' 500 '''')) 2)
     Background ''x y'' 2 exampleStart =
   ((Returns (None, Some (ErrStatusNotOK ''500 Internal Server Error'' 500)), 2),
    \<lparr>cursor = 1, world = 2,
     trace = [EvNext ''a'', EvDo (getRequest ''http://a/range/list?x+y''),
              EvDo (getRequest ''http://a/range/list?x+y'')]\<rparr>) \<and>
   retryLoop exampleRuntime
     (exampleClient (backendAlways (respond ''500 Internal Server Error'' 500 '''')) 2)
     Background ''x y'' 0 exampleStart =
   retryLoop exampleRuntime
     (exampleClient (backendAlways (respond ''500 Internal Server Error'' 500 '''')) 2)
     Background ''x y'' 1
     \<lparr>cursor = 1, world = 2,
      trace = [EvNext ''a'', EvDo (getRequest ''http://a/range/list?x+y''),
               EvDo (getRequest ''http://a/range/list?x+y'')]\<rparr> \<and>
   length (nextCalls (since exampleStart (snd (retryLoop exampleRuntime
     (exampleClient (backendAlways (respond ''500 Internal Server Error'' 500 '''')) 2)
     Background ''x y'' 0 exampleStart)))) \<noteq> 1"
proof -
  let ?c = "exampleClient (backendAlways (respond ''500 Internal Server Error'' 500 '''')) 2"
  have f: "retryCount ?c = 2" "retryPause ?c = 0" "retryCallback ?c e = True" for e
    by (simp_all add: exampleClient_def)
  note stop = retry_loop_step [OF example_500 [of 2], where attempts = 2]
  note again = retry_loop_step [OF example_500 [of 2], where attempts = 0]
  from stop [THEN conjunct1] have a: "retryLoop exampleRuntime ?c Background ''x y'' 2 exampleStart =
    ((Returns (None, Some (ErrStatusNotOK ''500 Internal Server Error'' 500)), 2),
     \<lparr>cursor = 1, world = 2,
      trace = [EvNext ''a'', EvDo (getRequest ''http://a/range/list?x+y''),
               EvDo (getRequest ''http://a/range/list?x+y'')]\<rparr>)"
    by (simp add: f)
  from again [THEN conjunct1] have b: "retryLoop exampleRuntime ?c Background ''x y'' 0 exampleStart =
    retryLoop exampleRuntime ?c Background ''x y'' 1
      \<lparr>cursor = 1, world = 2,
       trace = [EvNext ''a'', EvDo (getRequest ''http://a/range/list?x+y''),
                EvDo (getRequest ''http://a/range/list?x+y'')]\<rparr>"
    by (simp add: f word_sless_alt)
  from again [THEN conjunct2] have d: "length (nextCalls (since exampleStart
      (snd (retryLoop exampleRuntime ?c Background ''x y'' 0 exampleStart)))) \<noteq> 1"
    by (simp add: f)
  from a b d show ?thesis by blast
qed

lemma resolver_unfold:
  assumes "rrNext (servers c) s = (server, s0)"
  shows "getFromRangeServer rt c ctx expression s =
     tries rt c ctx (endpointOf server) (uriOf (endpointOf server) expression) expression
       (Suc (Suc 0)) (firstMethod (uriOf (endpointOf server) expression)) None s0"
  using assms by (simp add: getFromRangeServer_def Let_def numeral_2_eq_2 del: tries.simps)

lemma rrNext_state:
  "rrNext (servers c) s = (server, s0) \<Longrightarrow>
   world s0 = world s \<and> trace s0 = trace s @ [EvNext server]"
  by (auto simp: rrNext_def Let_def)

subsection \<open>From GET to PUT on status 414\<close>

text \<open>
  Claim C2.  When the first attempt of a resolver invocation is a GET that is answered
  with status 414, and the context is still live, the second attempt is a PUT to the
  same endpoint: the invocation selects a server once and sends exactly these two
  requests.  If the PUT is answered with status 200 and no exception header (and its
  body is read and closed without error), the resolver returns the body, the retry loop
  started with counter 0 returns it with counter 0, and \<^verbatim>\<open>query\<close> returns it when the
  context is live at that moment.  No resolver invocation whatever sends more than two
  requests or selects a server more than once.
\<close>

theorem too_long_switches_to_put:
  assumes "rrNext (servers c) s = (server, s0)"
    and "endpoint = endpointOf server"
    and "uri = uriOf endpoint expression"
    and "length uri \<le> defaultQueryLengthThreshold"
    and "ctx (world s) = None"
    and "newRequestErr rt MethodGet uri = None"
    and "httpClient c ctx (getRequest uri) (world s) = (Inr r1, w1)"
    and "StatusCode r1 = 414"
    and "ctx w1 = None"
    and "newRequestErr rt MethodPut endpoint = None"
    and "httpClient c ctx (putRequest endpoint expression) w1 = (Inr r2, w2)"
    and "StatusCode r2 = 200"
    and "Header r2 ''RangeException'' = ''''"
    and "readAll (Body r2) = (buf, None)"
    and "closeErr (Body r2) = None"
    and "ctx w2 = None"
  shows "getFromRangeServer rt c ctx expression s =
           (Returns (Some buf, None),
            s0\<lparr>world := w2,
               trace := trace s @ [EvNext server, EvDo (getRequest uri),
                                   EvDo (putRequest endpoint expression), EvReadAll, EvClose]\<rparr>) \<and>
         retryLoop rt c ctx expression 0 s =
           ((Returns (Some buf, None), 0),
            s0\<lparr>world := w2,
               trace := trace s @ [EvNext server, EvDo (getRequest uri),
                                   EvDo (putRequest endpoint expression), EvReadAll, EvClose]\<rparr>) \<and>
         query rt c ctx expression s =
           (Returns (Some buf, None),
            s0\<lparr>world := w2,
               trace := trace s @ [EvNext server, EvDo (getRequest uri),
                                   EvDo (putRequest endpoint expression), EvReadAll, EvClose]\<rparr>) \<and>
         (\<forall>rt' c' ctx' expression' s'.
            length (requests (since s' (snd (getFromRangeServer rt' c' ctx' expression' (s' :: 'a state)))))
              \<le> 2 \<and>
            length (nextCalls (since s' (snd (getFromRangeServer rt' c' ctx' expression' s')))) = 1)"
proof -
  let ?get = "getRequest uri" and ?put = "putRequest endpoint expression"
  let ?fin = "s0\<lparr>world := w2,
               trace := trace s @ [EvNext server, EvDo ?get, EvDo ?put, EvReadAll, EvClose]\<rparr>"
  from rrNext_state [OF assms(1)] have s0: "world s0 = world s" "trace s0 = trace s @ [EvNext server]"
    by simp_all
  have fm: "firstMethod uri = MethodGet"
    using assms(4) by (simp add: firstMethod_def)
  have rGet: "requestFor MethodGet endpoint uri expression = ?get"
    and rPut: "requestFor MethodPut endpoint uri expression = ?put"
    using Method_neq by (simp_all add: requestFor_def)
  have uGet: "URL ?get = uri" and uPut: "URL ?put = endpoint"
    by (simp_all add: getRequest_def putRequest_def)
  let ?s1 = "sent s0 ?get w1"
  have first: "tries rt c ctx endpoint uri expression (Suc (Suc 0)) MethodGet None s0 =
      tries rt c ctx endpoint uri expression (Suc 0) MethodPut (Some (statusNotOK r1)) ?s1"
    using tries_step [where ctx = ctx and s = s0 and m = MethodGet and rt = rt and c = c
        and endpoint = endpoint and uri = uri and expression = expression and response = r1
        and w = w1 and n = "Suc 0" and herr = None]
      assms(5,6,7,8) s0
    by (simp add: rGet uGet Let_def StatusOK_def StatusRequestURITooLong_def del: tries.simps)
  have second: "tries rt c ctx endpoint uri expression (Suc 0) MethodPut (Some (statusNotOK r1)) ?s1 =
      readAndClose (Body r2) (sent ?s1 ?put w2)"
    using tries_step [where ctx = ctx and s = ?s1 and m = MethodPut and rt = rt and c = c
        and endpoint = endpoint and uri = uri and expression = expression and response = r2
        and w = w2 and n = 0 and herr = "Some (statusNotOK r1)"]
      assms(9,10,11,12,13)
    by (simp add: rPut uPut Let_def StatusOK_def sent_def del: tries.simps)
  have g: "getFromRangeServer rt c ctx expression s = (Returns (Some buf, None), ?fin)"
    unfolding resolver_unfold [OF assms(1)] assms(2) [symmetric] assms(3) [symmetric] fm
      first second
    using assms(14,15) s0 by (simp add: readAndClose_eq sent_def)
  have gu: "giveUp c 0 None"
    by (simp add: giveUp_def)
  from retryLoop_stop [OF g gu] have l: "retryLoop rt c ctx expression 0 s =
      ((Returns (Some buf, None), 0), ?fin)"
    by simp
  have q: "query rt c ctx expression s = (Returns (Some buf, None), ?fin)"
    using assms(16) by (simp add: query_def l)
  have cap: "length (requests (since s' (snd (getFromRangeServer rt' c' ctx' expression' s')))) \<le> 2 \<and>
      length (nextCalls (since s' (snd (getFromRangeServer rt' c' ctx' expression' s')))) = 1"
    for rt' :: "'a runtime" and c' ctx' expression' s'
    using resolver_extends [of rt' c' ctx' expression' s'] by (auto simp: since_def)
  from g l q cap show ?thesis by blast
qed

lemma example_start_fields:
  "cursor exampleStart = 0" "world exampleStart = 0" "trace exampleStart = []"
  by (simp_all add: exampleStart_def)

theorem too_long_switches_to_put_witness:
  "getFromRangeServer exampleRuntime (exampleClient backendTooLongOnGet 2) Background ''x y''
     exampleStart =
   (Returns (Some ''a b c'', None),
    \<lparr>cursor = 1, world = 2,
     trace = [EvNext ''a'', EvDo (getRequest ''http://a/range/list?x+y''),
              EvDo (putRequest ''http://a/range/list'' ''x y''), EvReadAll, EvClose]\<rparr>) \<and>
   retryLoop exampleRuntime (exampleClient backendTooLongOnGet 2) Background ''x y'' 0
     exampleStart =
   ((Returns (Some ''a b c'', None), 0),
    \<lparr>cursor = 1, world = 2,
     trace = [EvNext ''a'', EvDo (getRequest ''http://a/range/list?x+y''),
              EvDo (putRequest ''http://a/range/list'' ''x y''), EvReadAll, EvClose]\<rparr>) \<and>
   query exampleRuntime (exampleClient backendTooLongOnGet 2) Background ''x y'' exampleStart =
   (Returns (Some ''a b c'', None),
    \<lparr>cursor = 1, world = 2,
     trace = [EvNext ''a'', EvDo (getRequest ''http://a/range/list?x+y''),
              EvDo (putRequest ''http://a/range/list'' ''x y''), EvReadAll, EvClose]\<rparr>)"
proof -
  let ?c = "exampleClient backendTooLongOnGet 2"
  let ?uri = "''http://a/range/list?x+y''"
  let ?r1 = "respond ''414 Request-URI Too Long'' 414 ''''"
  let ?r2 = "respond ''200 OK'' 200 ''''"
  have h2: "''http://a/range/list'' = endpointOf ''a''"
    by (simp add: endpointOf_def)
  have h3: "?uri = uriOf ''http://a/range/list'' ''x y''"
    using example_uri by (simp add: endpointOf_def)
  have h4: "length ?uri \<le> defaultQueryLengthThreshold"
    by (simp add: defaultQueryLengthThreshold_def)
  have h5: "Background (world exampleStart) = None" "Background (1::nat) = None"
    "Background (2::nat) = None"
    by (simp_all add: Background_def)
  have h6: "newRequestErr exampleRuntime MethodGet ?uri = None"
    "newRequestErr exampleRuntime MethodPut ''http://a/range/list'' = None"
    by (simp_all add: exampleRuntime_def)
  have h7: "httpClient ?c Background (getRequest ?uri) (world exampleStart) = (Inr ?r1, 1)"
    by (simp add: exampleClient_def backendTooLongOnGet_def getRequest_def exampleStart_def)
  have h8: "httpClient ?c Background (putRequest ''http://a/range/list'' ''x y'') 1 = (Inr ?r2, 2)"
    using Method_neq
    by (simp add: exampleClient_def backendTooLongOnGet_def putRequest_def)
  have h9: "StatusCode ?r1 = 414" "StatusCode ?r2 = 200" "Header ?r2 ''RangeException'' = ''''"
    "readAll (Body ?r2) = (''a b c'', None)" "closeErr (Body ?r2) = None"
    by (simp_all add: respond_def exampleBody_def)
  note t = too_long_switches_to_put [OF example_first_state h2 h3 h4 h5(1) h6(1) h7 h9(1) h5(2)
      h6(2) h8 h9(2) h9(3) h9(4) h9(5) h5(3)]
  from t [THEN conjunct1] have a: "getFromRangeServer exampleRuntime ?c Background ''x y''
      exampleStart =
    (Returns (Some ''a b c'', None),
     \<lparr>cursor = 1, world = 2,
      trace = [EvNext ''a'', EvDo (getRequest ?uri),
               EvDo (putRequest ''http://a/range/list'' ''x y''), EvReadAll, EvClose]\<rparr>)"
    by (simp add: example_start_fields)
  from t [THEN conjunct2, THEN conjunct1] have b: "retryLoop exampleRuntime ?c Background ''x y'' 0
      exampleStart =
    ((Returns (Some ''a b c'', None), 0),
     \<lparr>cursor = 1, world = 2,
      trace = [EvNext ''a'', EvDo (getRequest ?uri),
               EvDo (putRequest ''http://a/range/list'' ''x y''), EvReadAll, EvClose]\<rparr>)"
    by (simp add: example_start_fields)
  from t [THEN conjunct2, THEN conjunct2, THEN conjunct1] have d: "query exampleRuntime ?c
      Background ''x y'' exampleStart =
    (Returns (Some ''a b c'', None),
     \<lparr>cursor = 1, world = 2,
      trace = [EvNext ''a'', EvDo (getRequest ?uri),
               EvDo (putRequest ''http://a/range/list'' ''x y''), EvReadAll, EvClose]\<rparr>)"
    by (simp add: example_start_fields)
  from a b d show ?thesis by blast
qed

subsection \<open>Status 414 on a PUT\<close>

text \<open>
  Claim C10.  When the first attempt of a resolver invocation is a PUT, because the GET
  URI is longer than the threshold, and it is answered with status 414, the method is
  set to PUT again: with the context still live, the second and last attempt is the same
  PUT to the same endpoint, and if that is answered with a status other than 200 the
  resolver returns the \<^verbatim>\<open>ErrStatusNotOK\<close> of this last response.  The invocation selects
  one server and sends two PUT requests and no GET.
\<close>

theorem put_stays_put_on_too_long:
  assumes "rrNext (servers c) s = (server, s0)"
    and "endpoint = endpointOf server"
    and "uri = uriOf endpoint expression"
    and "defaultQueryLengthThreshold < length uri"
    and "ctx (world s) = None"
    and "newRequestErr rt MethodPut endpoint = None"
    and "httpClient c ctx (putRequest endpoint expression) (world s) = (Inr r1, w1)"
    and "StatusCode r1 = 414"
    and "ctx w1 = None"
    and "httpClient c ctx (putRequest endpoint expression) w1 = (Inr r2, w2)"
    and "StatusCode r2 \<noteq> 200"
  shows "getFromRangeServer rt c ctx expression s =
           (Returns (None, Some (ErrStatusNotOK (Status r2) (StatusCode r2))),
            s0\<lparr>world := w2,
               trace := trace s @ [EvNext server, EvDo (putRequest endpoint expression),
                                   EvDo (putRequest endpoint expression)]\<rparr>) \<and>
         requests (since s (snd (getFromRangeServer rt c ctx expression s))) =
           [putRequest endpoint expression, putRequest endpoint expression] \<and>
         nextCalls (since s (snd (getFromRangeServer rt c ctx expression s))) = [server]"
proof -
  let ?put = "putRequest endpoint expression"
  let ?fin = "s0\<lparr>world := w2, trace := trace s @ [EvNext server, EvDo ?put, EvDo ?put]\<rparr>"
  from rrNext_state [OF assms(1)] have s0: "world s0 = world s" "trace s0 = trace s @ [EvNext server]"
    by simp_all
  have fm: "firstMethod uri = MethodPut"
    using assms(4) by (simp add: firstMethod_def)
  have rPut: "requestFor MethodPut endpoint uri expression = ?put"
    using Method_neq by (simp add: requestFor_def)
  have uPut: "URL ?put = endpoint"
    by (simp add: putRequest_def)
  let ?s1 = "sent s0 ?put w1"
  have first: "tries rt c ctx endpoint uri expression (Suc (Suc 0)) MethodPut None s0 =
      tries rt c ctx endpoint uri expression (Suc 0) MethodPut (Some (statusNotOK r1)) ?s1"
    using tries_step [where ctx = ctx and s = s0 and m = MethodPut and rt = rt and c = c
        and endpoint = endpoint and uri = uri and expression = expression and response = r1
        and w = w1 and n = "Suc 0" and herr = None]
      assms(5,6,7,8) s0
    by (simp add: rPut uPut Let_def StatusOK_def StatusRequestURITooLong_def del: tries.simps)
  have step2: "tries rt c ctx endpoint uri expression (Suc 0) MethodPut (Some (statusNotOK r1)) ?s1 =
      (Returns (None, Some (statusNotOK r2)), sent ?s1 ?put w2)"
    using tries_step [where ctx = ctx and s = ?s1 and m = MethodPut and rt = rt and c = c
        and endpoint = endpoint and uri = uri and expression = expression and response = r2
        and w = w2 and n = 0 and herr = "Some (statusNotOK r1)"]
      assms(6,9,10,11)
    by (simp add: rPut uPut Let_def StatusOK_def sent_def)
  have g: "getFromRangeServer rt c ctx expression s =
      (Returns (None, Some (ErrStatusNotOK (Status r2) (StatusCode r2))), ?fin)"
    unfolding resolver_unfold [OF assms(1)] assms(2) [symmetric] assms(3) [symmetric] fm
      first step2
    using s0 by (simp add: sent_def statusNotOK_def)
  show ?thesis
    unfolding g by (simp add: since_def)
qed

theorem put_stays_put_on_too_long_witness:
  "getFromRangeServer exampleRuntime
     (exampleClient (backendAlways (respond ''414 Request-URI Too Long'' 414 '''')) 0)
     Background (replicate 5000 (CHR ''x'')) exampleStart =
   (Returns (None, Some (ErrStatusNotOK ''414 Request-URI Too Long'' 414)),
    \<lparr>cursor = 1, world = 2,
     trace = [EvNext ''a'',
              EvDo (putRequest ''http://a/range/list'' (replicate 5000 (CHR ''x''))),
              EvDo (putRequest ''http://a/range/list'' (replicate 5000 (CHR ''x'')))]\<rparr>)"
proof -
  let ?r = "respond ''414 Request-URI Too Long'' 414 ''''"
  let ?c = "exampleClient (backendAlways ?r) 0"
  let ?e = "replicate 5000 (CHR ''x'')"
  have h2: "''http://a/range/list'' = endpointOf ''a''"
    by (simp add: endpointOf_def)
  have h4: "defaultQueryLengthThreshold < length (uriOf ''http://a/range/list'' ?e)"
    using length_QueryEscape [of ?e]
    by (simp add: defaultQueryLengthThreshold_def uriOf_def)
  have h5: "Background (world exampleStart) = None" "Background (1::nat) = None"
    by (simp_all add: Background_def)
  have h6: "newRequestErr exampleRuntime MethodPut ''http://a/range/list'' = None"
    by (simp add: exampleRuntime_def)
  have h7: "httpClient ?c Background (putRequest ''http://a/range/list'' ?e) (world exampleStart) =
      (Inr ?r, 1)"
    by (simp add: exampleClient_def backendAlways_def exampleStart_def)
  have h8: "httpClient ?c Background (putRequest ''http://a/range/list'' ?e) 1 = (Inr ?r, 2)"
    by (simp add: exampleClient_def backendAlways_def)
  have h9: "StatusCode ?r = 414" "StatusCode ?r \<noteq> 200" "Status ?r = ''414 Request-URI Too Long''"
    by (simp_all add: respond_def)
  note t = put_stays_put_on_too_long [OF example_first_state h2 refl h4 h5(1) h6 h7 h9(1) h5(2)
      h8 h9(2)]
  from t [THEN conjunct1] show ?thesis
    by (simp add: h9 example_start_fields)
qed

subsection \<open>Any other status\<close>

text \<open>
  Claim C1, at the input where the code departs from it.  The \<^verbatim>\<open>default\<close> branch of the
  status switch sets \<^verbatim>\<open>herr\<close> and does not return, so after a status other than 200,
  405 and 414 the loop sends the same request to the same server once more.  On the
  example client against a backend that answers every request with status 500, one
  resolver invocation sends two requests; the query sends two requests with retry count
  0, and six with retry count 2, two to each of the three servers, before it returns
  \<^verbatim>\<open>ErrStatusNotOK\<close> with code 500.
\<close>

theorem always_500_sends_twice:
  "length (requests (trace (snd (getFromRangeServer exampleRuntime
      (exampleClient (backendAlways (respond ''500 Internal Server Error'' 500 '''')) 0)
      Background ''x y'' exampleStart)))) = 2 \<and>
   query exampleRuntime
      (exampleClient (backendAlways (respond ''500 Internal Server Error'' 500 '''')) 0)
      Background ''x y'' exampleStart =
   (Returns (None, Some (ErrStatusNotOK ''500 Internal Server Error'' 500)),
    \<lparr>cursor = 1, world = 2,
     trace = [EvNext ''a'', EvDo (getRequest ''http://a/range/list?x+y''),
              EvDo (getRequest ''http://a/range/list?x+y'')]\<rparr>) \<and>
   query exampleRuntime
      (exampleClient (backendAlways (respond ''500 Internal Server Error'' 500 '''')) 2)
      Background ''x y'' exampleStart =
   (Returns (None, Some (ErrStatusNotOK ''500 Internal Server Error'' 500)),
    \<lparr>cursor = 0, world = 6,
     trace = [EvNext ''a'', EvDo (getRequest ''http://a/range/list?x+y''),
              EvDo (getRequest ''http://a/range/list?x+y''),
              EvNext ''b'', EvDo (getRequest ''http://b/range/list?x+y''),
              EvDo (getRequest ''http://b/range/list?x+y''),
              EvNext ''c'', EvDo (getRequest ''http://c/range/list?x+y''),
              EvDo (getRequest ''http://c/range/list?x+y'')]\<rparr>) \<and>
   length (requests (trace (snd (query exampleRuntime
      (exampleClient (backendAlways (respond ''500 Internal Server Error'' 500 '''')) 2)
      Background ''x y'' exampleStart)))) = 6"
  by (simp add: run_defs example_defs)

end
